theory Spec2Isabelle
  imports Main
begin

section \<open>Messages, tool calls, tools and schemas\<close>

text \<open>
  The embedding covers \<^verbatim>\<open>generate_structured_output\<close> of
  \<^verbatim>\<open>structured_tool_agent.py\<close>. The chat model, the tools and the schema class are
  objects the function receives or builds from its arguments and only calls; they are
  parameters of the embedding. Everything they do outside the function (network traffic,
  printing, a model that answers differently each time) is a change of a world of type
  \<open>'w\<close> that every call takes and returns.
\<close>

text \<open>A JSON value of a tool call's argument mapping: a string or an integer.\<close>

datatype pyval = PStr string | PInt int

text \<open>\<^verbatim>\<open>tool_call["args"]\<close>: a dict with string keys, in insertion order.\<close>

type_synonym args = "(string \<times> pyval) list"

text \<open>
  An entry of \<^verbatim>\<open>response.tool_calls\<close>, read at the keys "name", "args", "id"; the
  chat model of the source gives every tool call an id.
\<close>

record tool_call =
  tc_name :: string
  tc_args :: args
  tc_id :: string

text \<open>The reply of a chat model with bound tools: an assistant message.\<close>

record ai_message =
  content :: string
  tool_calls :: "tool_call list"

text \<open>
  \<^verbatim>\<open>ToolMessage(content=..., tool_call_id=...)\<close> keeps its two fields in this
  order.
\<close>

datatype message =
    SystemMessage string
  | HumanMessage string
  | AIMessage ai_message
  | ToolMessage string string

text \<open>
  What \<^verbatim>\<open>await tool.ainvoke(args)\<close> followed by \<^verbatim>\<open>str(tool_result)\<close> ends in:
  \<open>Returns\<close> carries the string of the result; \<open>Raises\<close> carries \<^verbatim>\<open>str(e)\<close> of an
  exception of class \<^verbatim>\<open>Exception\<close>, the class the \<^verbatim>\<open>except\<close> clause names;
  \<open>Escapes\<close> carries the text of an exception outside that class
  (\<^verbatim>\<open>asyncio.CancelledError\<close>, \<^verbatim>\<open>KeyboardInterrupt\<close>, \<^verbatim>\<open>SystemExit\<close>), which the
  clause does not catch.
\<close>

datatype tool_outcome = Returns string | Raises string | Escapes string

text \<open>
  An element of \<^verbatim>\<open>tools\<close>. The list is typed \<^verbatim>\<open>List[Any]\<close>, and the loop asks
  \<^verbatim>\<open>hasattr(tool, "name")\<close> first: \<open>tool_name\<close> is \<open>None\<close> for an object without
  that attribute.
\<close>

record 'w tool =
  tool_name :: "string option"
  ainvoke :: "args \<Rightarrow> 'w \<Rightarrow> tool_outcome \<times> 'w"

datatype error =
    AssertionError
  | Exception string
  | BaseException string
  | ValidationError "string list"
  | ModelClientError string

text \<open>
  The \<^verbatim>\<open>structure\<close> argument, a pydantic class: \<open>schema_name\<close> is
  \<^verbatim>\<open>structure.__name__\<close> and \<open>construct a\<close> is \<^verbatim>\<open>structure(**a)\<close>, which
  validates the fields and raises on a violation.
\<close>

record 'v schema =
  schema_name :: string
  construct :: "args \<Rightarrow> error + 'v"

text \<open>What \<^verbatim>\<open>bind_tools\<close> is given: the tools by name, and the schema class.\<close>

datatype bound = BoundTool "string option" | BoundSchema string

text \<open>
  \<^verbatim>\<open>llm = ChatOpenAI(model=model_name, temperature=temperature)\<close> with the two ways
  the function calls it:
  \<^item> \<open>with_structured_output nm msgs w\<close> is
    \<^verbatim>\<open>await llm.with_structured_output(structure).ainvoke(msgs)\<close>, an instance of the
    schema named \<open>nm\<close> or an exception;
  \<^item> \<open>bind_tools bs msgs w\<close> is
    \<^verbatim>\<open>await llm.bind_tools(bs, tool_choice="any").ainvoke(msgs)\<close>, an assistant message
    or an exception.
\<close>

record ('w, 'v) chat_model =
  with_structured_output :: "string \<Rightarrow> message list \<Rightarrow> 'w \<Rightarrow> (error + 'v) \<times> 'w"
  bind_tools :: "bound list \<Rightarrow> message list \<Rightarrow> 'w \<Rightarrow> (error + ai_message) \<times> 'w"

text \<open>
  The function returns the object it was handed by whichever branch ended it: an instance
  of the schema, or (from a chat model with bound tools) an assistant message.
\<close>

datatype 'v returned = StructuredInstance 'v | RawTurn ai_message

section \<open>The log of calls\<close>

text \<open>
  Each call of the chat model and each invocation of a tool is written to a log, in the
  order the function makes them. The log only records; nothing reads it.
\<close>

datatype event =
    StructuredCall string "message list"
  | BoundCall "bound list" "message list"
  | ToolInvoke string args

type_synonym 'w run = "'w \<times> event list"

fun is_model_call :: "event \<Rightarrow> bool" where
  "is_model_call (StructuredCall nm msgs) = True"
| "is_model_call (BoundCall bs msgs) = True"
| "is_model_call (ToolInvoke nm a) = False"

definition model_calls :: "event list \<Rightarrow> nat" where
  "model_calls tr = length (filter is_model_call tr)"

definition ainvoke_structured ::
  "('w, 'v) chat_model \<Rightarrow> string \<Rightarrow> message list \<Rightarrow> 'w run \<Rightarrow> (error + 'v) \<times> 'w run" where
  "ainvoke_structured llm nm msgs s =
     (case with_structured_output llm nm msgs (fst s) of
        (r, w') \<Rightarrow> (r, (w', snd s @ [StructuredCall nm msgs])))"

definition ainvoke_bound ::
  "('w, 'v) chat_model \<Rightarrow> bound list \<Rightarrow> message list \<Rightarrow> 'w run
     \<Rightarrow> (error + ai_message) \<times> 'w run" where
  "ainvoke_bound llm bs msgs s =
     (case bind_tools llm bs msgs (fst s) of
        (r, w') \<Rightarrow> (r, (w', snd s @ [BoundCall bs msgs])))"

section \<open>The loop\<close>

text \<open>
  \<^verbatim>\<open>
  for tool_call in response.tool_calls:
      if tool_call["name"] == structure.__name__:
          structure_tool_call = tool_call
          break
  \<close>
\<close>

fun find_structure_tool_call :: "string \<Rightarrow> tool_call list \<Rightarrow> tool_call option" where
  "find_structure_tool_call nm [] = None"
| "find_structure_tool_call nm (tc # tcs) =
     (if tc_name tc = nm then Some tc else find_structure_tool_call nm tcs)"

text \<open>
  The inner loop over \<^verbatim>\<open>tools\<close> for one tool call: the first tool that has a name and
  whose name is the requested one is invoked, one \<^verbatim>\<open>ToolMessage\<close> is appended whether
  it returns or raises an \<^verbatim>\<open>Exception\<close>, and the loop breaks. With no such tool
  nothing is appended. An exception that the \<^verbatim>\<open>except\<close> clause does not catch leaves
  the function.
\<close>

fun execute_tool_call ::
  "'w tool list \<Rightarrow> tool_call \<Rightarrow> 'w run \<Rightarrow> (error + message list) \<times> 'w run" where
  "execute_tool_call [] tc s = (Inr [], s)"
| "execute_tool_call (t # ts) tc s =
     (if tool_name t = Some (tc_name tc) then
        (case ainvoke t (tc_args tc) (fst s) of
           (Returns r, w') \<Rightarrow>
             (Inr [ToolMessage r (tc_id tc)],
              (w', snd s @ [ToolInvoke (tc_name tc) (tc_args tc)]))
         | (Raises e, w') \<Rightarrow>
             (Inr [ToolMessage (''Error: '' @ e) (tc_id tc)],
              (w', snd s @ [ToolInvoke (tc_name tc) (tc_args tc)]))
         | (Escapes e, w') \<Rightarrow>
             (Inl (BaseException e), (w', snd s @ [ToolInvoke (tc_name tc) (tc_args tc)])))
      else execute_tool_call ts tc s)"

text \<open>
  The outer loop over \<^verbatim>\<open>response.tool_calls\<close>, collecting \<^verbatim>\<open>tool_messages\<close>; an
  exception that left the inner loop leaves this one too.
\<close>

fun run_tool_calls ::
  "'w tool list \<Rightarrow> tool_call list \<Rightarrow> 'w run \<Rightarrow> (error + message list) \<times> 'w run" where
  "run_tool_calls tools [] s = (Inr [], s)"
| "run_tool_calls tools (tc # tcs) s =
     (case execute_tool_call tools tc s of
        (Inl e, s') \<Rightarrow> (Inl e, s')
      | (Inr ms, s') \<Rightarrow>
          (case run_tool_calls tools tcs s' of
             (Inl e, s'') \<Rightarrow> (Inl e, s'')
           | (Inr ms', s'') \<Rightarrow> (Inr (ms @ ms'), s'')))"

text \<open>The message of the exception raised for a schema call without arguments.\<close>

definition empty_args_message :: string where
  "empty_args_message =
     ''Tool call result empty, likely ran out of tokens. Increase '' @ [CHR 0x60] @
     ''max_tokens'' @ [CHR 0x60] @ ''.''"

text \<open>\<^verbatim>\<open>all_tools = tools + [structure]\<close>, as \<^verbatim>\<open>bind_tools\<close> sees it.\<close>

definition all_tools :: "'w tool list \<Rightarrow> 'v schema \<Rightarrow> bound list" where
  "all_tools tools structure =
     map (\<lambda>t. BoundTool (tool_name t)) tools @ [BoundSchema (schema_name structure)]"

text \<open>
  \<^verbatim>\<open>for _ in range(max_executions - 1): ...\<close> followed by the final
  \<^verbatim>\<open>return await llm_forced_structure.ainvoke(messages)\<close>. The first argument
  counts the iterations left; \<open>messages\<close> and \<open>response\<close> are the loop's two variables.
  With no iteration left the function returns what the chat model bound to the schema
  alone answers.
\<close>

fun tool_loop ::
  "('w, 'v) chat_model \<Rightarrow> 'v schema \<Rightarrow> 'w tool list \<Rightarrow> nat \<Rightarrow> message list \<Rightarrow> ai_message
     \<Rightarrow> 'w run \<Rightarrow> (error + 'v returned) \<times> 'w run" where
  "tool_loop llm structure tools 0 messages response s =
     (case ainvoke_bound llm [BoundSchema (schema_name structure)] messages s of
        (Inl e, s') \<Rightarrow> (Inl e, s')
      | (Inr forced, s') \<Rightarrow> (Inr (RawTurn forced), s'))"
| "tool_loop llm structure tools (Suc n) messages response s =
     (case find_structure_tool_call (schema_name structure) (tool_calls response) of
        Some structure_tool_call \<Rightarrow>
          (if tc_args structure_tool_call = [] then (Inl (Exception empty_args_message), s)
           else
             (case construct structure (tc_args structure_tool_call) of
                Inl e \<Rightarrow> (Inl e, s)
              | Inr v \<Rightarrow> (Inr (StructuredInstance v), s)))
      | None \<Rightarrow>
          (case run_tool_calls tools (tool_calls response) s of
             (Inl e, s') \<Rightarrow> (Inl e, s')
           | (Inr tool_messages, s') \<Rightarrow>
               (case ainvoke_bound llm (all_tools tools structure)
                       (messages @ [AIMessage response] @ tool_messages) s' of
                  (Inl e, s'') \<Rightarrow> (Inl e, s'')
                | (Inr response', s'') \<Rightarrow>
                    tool_loop llm structure tools n
                      (messages @ [AIMessage response] @ tool_messages) response' s'')))"

text \<open>
  The function itself. \<open>max_executions\<close> is a Python integer, and \<^verbatim>\<open>range\<close> of a
  number below one is empty. \<^verbatim>\<open>not tools\<close> holds for \<^verbatim>\<open>None\<close> (the default) and
  for an empty list; the last branch is the one for a list with an element.
\<close>

definition generate_structured_output ::
  "('w, 'v) chat_model \<Rightarrow> message list \<Rightarrow> 'v schema \<Rightarrow> 'w tool list option \<Rightarrow> int
     \<Rightarrow> 'w run \<Rightarrow> (error + 'v returned) \<times> 'w run" where
  "generate_structured_output llm messages structure tools max_executions s =
     (if 1 \<le> max_executions then
        (case tools of
           Some (t # ts) \<Rightarrow>
             (case ainvoke_bound llm (all_tools (t # ts) structure) messages s of
                (Inl e, s') \<Rightarrow> (Inl e, s')
              | (Inr response, s') \<Rightarrow>
                  tool_loop llm structure (t # ts) (nat (max_executions - 1)) messages
                    response s')
         | _ \<Rightarrow>
             (case ainvoke_structured llm (schema_name structure) messages s of
                (Inl e, s') \<Rightarrow> (Inl e, s')
              | (Inr result, s') \<Rightarrow> (Inr (StructuredInstance result), s')))
      else (Inl AssertionError, s))"

section \<open>The example of the source file, and scripted collaborators\<close>

text \<open>
  \<^verbatim>\<open>BookOutput\<close>: \<^verbatim>\<open>target_audience\<close> is one of five literals,
  \<^verbatim>\<open>reading_level\<close> an integer with \<^verbatim>\<open>gt=0, lt=6\<close>; both are required, other keys
  are ignored, and the error lists the fields that failed, in declaration order. A field
  is accepted here only at its declared JSON type (a string, an integer); the coercions
  pydantic tries on a value of another type (a numeral in a string) are left out, and no
  run below gives a field such a value.
\<close>

record book_output =
  target_audience :: string
  reading_level :: int

definition audiences :: "string list" where
  "audiences = [''kids'', ''teens'', ''young adult'', ''adult'', ''elderly'']"

definition valid_target_audience :: "args \<Rightarrow> bool" where
  "valid_target_audience a =
     (case map_of a ''target_audience'' of Some (PStr ta) \<Rightarrow> ta \<in> set audiences | _ \<Rightarrow> False)"

definition valid_reading_level :: "args \<Rightarrow> bool" where
  "valid_reading_level a =
     (case map_of a ''reading_level'' of Some (PInt rl) \<Rightarrow> 0 < rl \<and> rl < 6 | _ \<Rightarrow> False)"

text \<open>The names of the fields whose validation fails, in declaration order.\<close>

definition failed_fields :: "args \<Rightarrow> string list" where
  "failed_fields a =
     (if valid_target_audience a then [] else [''target_audience'']) @
     (if valid_reading_level a then [] else [''reading_level''])"

definition BookOutput :: "book_output schema" where
  "BookOutput =
     \<lparr>schema_name = ''BookOutput'',
      construct = (\<lambda>a.
        case (failed_fields a, map_of a ''target_audience'', map_of a ''reading_level'') of
          ([], Some (PStr ta), Some (PInt rl)) \<Rightarrow>
            Inr \<lparr>target_audience = ta, reading_level = rl\<rparr>
        | _ \<Rightarrow> Inl (ValidationError (failed_fields a)))\<rparr>"

text \<open>
  A tool that returns the same string for every argument mapping, one that always raises an
  \<^verbatim>\<open>Exception\<close>, and one whose invocation always ends in an exception outside that
  class.
\<close>

definition returning_tool :: "string \<Rightarrow> string \<Rightarrow> 'w tool" where
  "returning_tool nm r = \<lparr>tool_name = Some nm, ainvoke = (\<lambda>a w. (Returns r, w))\<rparr>"

definition failing_tool :: "string \<Rightarrow> string \<Rightarrow> 'w tool" where
  "failing_tool nm e = \<lparr>tool_name = Some nm, ainvoke = (\<lambda>a w. (Raises e, w))\<rparr>"

definition escaping_tool :: "string \<Rightarrow> string \<Rightarrow> 'w tool" where
  "escaping_tool nm e = \<lparr>tool_name = Some nm, ainvoke = (\<lambda>a w. (Escapes e, w))\<rparr>"

text \<open>
  A chat model that answers from a script: the world holds the assistant messages and the
  structured results still to be given, and each call takes the next one.
\<close>

type_synonym 'v script = "ai_message list \<times> 'v list"

definition scripted_model :: "('v script, 'v) chat_model" where
  "scripted_model =
     \<lparr>with_structured_output = (\<lambda>nm msgs w.
        case snd w of
          [] \<Rightarrow> (Inl (ModelClientError ''script exhausted''), w)
        | v # vs \<Rightarrow> (Inr v, (fst w, vs))),
      bind_tools = (\<lambda>bs msgs w.
        case fst w of
          [] \<Rightarrow> (Inl (ModelClientError ''script exhausted''), w)
        | r # rs \<Rightarrow> (Inr r, (rs, snd w)))\<rparr>"

definition book_messages :: "message list" where
  "book_messages =
     [SystemMessage ''You are classifying books based on their first page of text.'',
      HumanMessage ''Tomorrow, and Tomorrow, and Tomorrow: Chapter 1'']"

definition reviews_call :: tool_call where
  "reviews_call =
     \<lparr>tc_name = ''collect_book_reviews'',
      tc_args = [(''book_title'', PStr ''Tomorrow, and Tomorrow, and Tomorrow'')],
      tc_id = ''call_1''\<rparr>"

definition unknown_call :: tool_call where
  "unknown_call =
     \<lparr>tc_name = ''lookup_author'', tc_args = [(''book_title'', PStr ''Tomorrow'')],
      tc_id = ''call_2''\<rparr>"

definition answer_call :: tool_call where
  "answer_call =
     \<lparr>tc_name = ''BookOutput'',
      tc_args = [(''target_audience'', PStr ''young adult''), (''reading_level'', PInt 4)],
      tc_id = ''call_3''\<rparr>"

definition empty_answer_call :: tool_call where
  "empty_answer_call = \<lparr>tc_name = ''BookOutput'', tc_args = [], tc_id = ''call_4''\<rparr>"

definition turn :: "tool_call list \<Rightarrow> ai_message" where
  "turn tcs = \<lparr>content = [], tool_calls = tcs\<rparr>"

definition invalid_answer_call :: tool_call where
  "invalid_answer_call =
     \<lparr>tc_name = ''BookOutput'',
      tc_args = [(''target_audience'', PStr ''everyone''), (''reading_level'', PInt 9)],
      tc_id = ''call_5''\<rparr>"

definition reviews_tool :: "book_output script tool" where
  "reviews_tool = returning_tool ''collect_book_reviews'' ''two reviews''"

definition broken_tool :: "book_output script tool" where
  "broken_tool = failing_tool ''collect_book_reviews'' ''connection refused''"

definition cancelled_tool :: "book_output script tool" where
  "cancelled_tool = escaping_tool ''collect_book_reviews'' ''CancelledError''"

text \<open>The state before the call: the script the chat model will follow, and an empty log.\<close>

definition start :: "ai_message list \<Rightarrow> book_output list \<Rightarrow> book_output script run" where
  "start turns results = ((turns, results), [])"

section \<open>Vocabulary of the statements\<close>

text \<open>
  A tool call is registered when some element of \<^verbatim>\<open>tools\<close> has a \<^verbatim>\<open>name\<close>
  attribute equal to the requested name: the test of the inner loop.
\<close>

definition registered :: "'w tool list \<Rightarrow> tool_call \<Rightarrow> bool" where
  "registered tools tc = (Some (tc_name tc) \<in> set (map tool_name tools))"

text \<open>The \<^verbatim>\<open>tool_call_id\<close> of a \<^verbatim>\<open>ToolMessage\<close>; other messages have none.\<close>

fun tool_call_id_of :: "message \<Rightarrow> string option" where
  "tool_call_id_of (ToolMessage c i) = Some i"
| "tool_call_id_of m = None"

text \<open>
  The loop's variables \<open>messages\<close> and \<open>response\<close>, and the state, once \<open>n\<close> iterations
  have passed of which none returned or raised: in each of them the turn had no schema
  call, no exception left the tools, and the chat model answered. \<open>None\<close> when an
  iteration ended the function.
\<close>

fun after_free_iterations ::
  "('w, 'v) chat_model \<Rightarrow> 'v schema \<Rightarrow> 'w tool list \<Rightarrow> nat \<Rightarrow> message list \<Rightarrow> ai_message
     \<Rightarrow> 'w run \<Rightarrow> (message list \<times> ai_message \<times> 'w run) option" where
  "after_free_iterations llm structure tools 0 messages response s =
     Some (messages, response, s)"
| "after_free_iterations llm structure tools (Suc n) messages response s =
     (case find_structure_tool_call (schema_name structure) (tool_calls response) of
        Some structure_tool_call \<Rightarrow> None
      | None \<Rightarrow>
          (case run_tool_calls tools (tool_calls response) s of
             (Inl e, s') \<Rightarrow> None
           | (Inr tool_messages, s') \<Rightarrow>
               (case ainvoke_bound llm (all_tools tools structure)
                       (messages @ [AIMessage response] @ tool_messages) s' of
                  (Inl e, s'') \<Rightarrow> None
                | (Inr response', s'') \<Rightarrow>
                    after_free_iterations llm structure tools n
                      (messages @ [AIMessage response] @ tool_messages) response' s'')))"

section \<open>The log grows, and only the chat model adds model calls\<close>

lemma model_calls_append: "model_calls (xs @ ys) = model_calls xs + model_calls ys"
  by (simp add: model_calls_def)

lemma ainvoke_bound_log:
  "snd (snd (ainvoke_bound llm bs msgs s)) = snd s @ [BoundCall bs msgs]"
  by (simp add: ainvoke_bound_def split: prod.splits)

lemma execute_tool_call_log:
  "\<exists>ext. snd (snd (execute_tool_call tools tc s)) = snd s @ ext \<and> model_calls ext = 0"
  by (induction tools) (auto simp: model_calls_def split: prod.splits tool_outcome.splits)

lemma run_tool_calls_log:
  "\<exists>ext. snd (snd (run_tool_calls tools tcs s)) = snd s @ ext \<and> model_calls ext = 0"
proof (induction tcs arbitrary: s)
  case Nil
  then show ?case by (simp add: model_calls_def)
next
  case (Cons tc tcs)
  obtain r1 s1 where e: "execute_tool_call tools tc s = (r1, s1)"
    by (cases "execute_tool_call tools tc s")
  from execute_tool_call_log [of tools tc s] e
  obtain ext1 where x1: "snd s1 = snd s @ ext1" "model_calls ext1 = 0" by auto
  show ?case
  proof (cases r1)
    case (Inl err)
    then show ?thesis using e x1 by auto
  next
    case (Inr ms)
    obtain r2 s2 where r: "run_tool_calls tools tcs s1 = (r2, s2)"
      by (cases "run_tool_calls tools tcs s1")
    from Cons.IH [of s1] r
    obtain ext2 where x2: "snd s2 = snd s1 @ ext2" "model_calls ext2 = 0" by auto
    have "snd s2 = snd s @ (ext1 @ ext2) \<and> model_calls (ext1 @ ext2) = 0"
      using x1 x2 by (simp add: model_calls_append)
    then show ?thesis using e r Inr by (cases r2) auto
  qed
qed

lemma run_tool_calls_model_calls:
  "model_calls (snd (snd (run_tool_calls tools tcs s))) = model_calls (snd s)"
  using run_tool_calls_log [of tools tcs s] by (auto simp: model_calls_append)

lemma tool_loop_calls_le:
  "model_calls (snd (snd (tool_loop llm structure tools n messages response s)))
     \<le> model_calls (snd s) + Suc n"
proof (induction n arbitrary: messages response s)
  case 0
  show ?case
    by (auto simp: ainvoke_bound_def model_calls_def split: prod.splits sum.splits)
next
  case (Suc n)
  show ?case
  proof (cases "find_structure_tool_call (schema_name structure) (tool_calls response)")
    case (Some tc)
    then show ?thesis by (auto split: sum.splits)
  next
    case None
    obtain rt s1 where r: "run_tool_calls tools (tool_calls response) s = (rt, s1)"
      by (cases "run_tool_calls tools (tool_calls response) s")
    have c1: "model_calls (snd s1) = model_calls (snd s)"
      using run_tool_calls_model_calls [of tools "tool_calls response" s] r by simp
    show ?thesis
    proof (cases rt)
      case (Inl err)
      then show ?thesis using None r c1 by simp
    next
      case (Inr tms)
      obtain res s2 where a: "ainvoke_bound llm (all_tools tools structure)
          (messages @ [AIMessage response] @ tms) s1 = (res, s2)"
        by (cases "ainvoke_bound llm (all_tools tools structure)
              (messages @ [AIMessage response] @ tms) s1")
      have c2: "model_calls (snd s2) = model_calls (snd s) + 1"
        using ainvoke_bound_log [of llm "all_tools tools structure"
            "messages @ [AIMessage response] @ tms" s1] a c1
        by (simp add: model_calls_append) (simp add: model_calls_def)
      show ?thesis
      proof (cases res)
        case (Inl e)
        then show ?thesis using None r Inr a c2 by simp
      next
        case res: (Inr response')
        have "model_calls (snd (snd (tool_loop llm structure tools n
                (messages @ [AIMessage response] @ tms) response' s2)))
              \<le> model_calls (snd s2) + Suc n"
          by (rule Suc.IH)
        then show ?thesis using None r Inr a c2 res by simp
      qed
    qed
  qed
qed

lemma generate_structured_output_calls_le:
  "model_calls (snd (snd (generate_structured_output llm messages structure tools max_executions s)))
     \<le> model_calls (snd s) + nat max_executions + 1"
proof (cases "1 \<le> max_executions")
  case False
  then show ?thesis by (simp add: generate_structured_output_def)
next
  case True
  show ?thesis
  proof (cases "\<exists>t ts. tools = Some (t # ts)")
    case False
    then have "generate_structured_output llm messages structure tools max_executions s =
       (case ainvoke_structured llm (schema_name structure) messages s of
                (Inl e, s') \<Rightarrow> (Inl e, s')
              | (Inr result, s') \<Rightarrow> (Inr (StructuredInstance result), s'))"
      using True by (auto simp: generate_structured_output_def split: option.splits list.splits)
    then show ?thesis
      by (auto simp: ainvoke_structured_def model_calls_def split: prod.splits sum.splits)
  next
    case True
    then obtain t ts where ts: "tools = Some (t # ts)" by auto
    obtain res s1 where a: "ainvoke_bound llm (all_tools (t # ts) structure) messages s = (res, s1)"
      by (cases "ainvoke_bound llm (all_tools (t # ts) structure) messages s")
    have c: "model_calls (snd s1) = model_calls (snd s) + 1"
      using ainvoke_bound_log [of llm "all_tools (t # ts) structure" messages s] a
      by (simp add: model_calls_append) (simp add: model_calls_def)
    show ?thesis
    proof (cases res)
      case (Inl e)
      then show ?thesis using \<open>1 \<le> max_executions\<close> ts a c
        by (simp add: generate_structured_output_def)
    next
      case (Inr response)
      have "model_calls (snd (snd (tool_loop llm structure (t # ts) (nat (max_executions - 1)) messages response s1)))
          \<le> model_calls (snd s1) + Suc (nat (max_executions - 1))"
        by (rule tool_loop_calls_le)
      then show ?thesis using \<open>1 \<le> max_executions\<close> ts a c Inr
        by (simp add: generate_structured_output_def)
    qed
  qed
qed

lemma tool_loop_log_extends:
  "\<exists>ext. snd (snd (tool_loop llm structure tools n messages response s)) = snd s @ ext"
proof (induction n arbitrary: messages response s)
  case 0
  show ?case by (auto simp: ainvoke_bound_def split: prod.splits sum.splits)
next
  case (Suc n)
  show ?case
  proof (cases "find_structure_tool_call (schema_name structure) (tool_calls response)")
    case (Some tc)
    then show ?thesis by (auto split: sum.splits)
  next
    case None
    obtain rt s1 where r: "run_tool_calls tools (tool_calls response) s = (rt, s1)"
      by (cases "run_tool_calls tools (tool_calls response) s")
    obtain ext1 where x1: "snd s1 = snd s @ ext1"
      using run_tool_calls_log [of tools "tool_calls response" s] r by auto
    show ?thesis
    proof (cases rt)
      case (Inl err)
      then show ?thesis using None r x1 by simp
    next
      case (Inr tms)
      obtain res s2 where a: "ainvoke_bound llm (all_tools tools structure)
          (messages @ [AIMessage response] @ tms) s1 = (res, s2)"
        by (cases "ainvoke_bound llm (all_tools tools structure)
              (messages @ [AIMessage response] @ tms) s1")
      have x2: "snd s2 = snd s1 @
          [BoundCall (all_tools tools structure) (messages @ [AIMessage response] @ tms)]"
        using ainvoke_bound_log [of llm "all_tools tools structure"
            "messages @ [AIMessage response] @ tms" s1] a
        by simp
      show ?thesis
      proof (cases res)
        case (Inl e)
        then show ?thesis using None r Inr a x1 x2 by simp
      next
        case res: (Inr response')
        obtain ext3 where "snd (snd (tool_loop llm structure tools n
                (messages @ [AIMessage response] @ tms) response' s2)) = snd s2 @ ext3"
          using Suc.IH by blast
        then show ?thesis using None r Inr a x1 x2 res by simp
      qed
    qed
  qed
qed

lemma tool_loop_continues:
  assumes "find_structure_tool_call (schema_name structure) (tool_calls response) = None"
    and "run_tool_calls tools (tool_calls response) s = (Inr tool_messages, s')"
  shows "tool_loop llm structure tools (Suc n) messages response s =
           (case ainvoke_bound llm (all_tools tools structure)
                   (messages @ [AIMessage response] @ tool_messages) s' of
              (Inl e, s'') \<Rightarrow> (Inl e, s'')
            | (Inr response', s'') \<Rightarrow>
                tool_loop llm structure tools n
                  (messages @ [AIMessage response] @ tool_messages) response' s'')"
  using assms by simp

lemma tool_loop_replays:
  assumes "find_structure_tool_call (schema_name structure) (tool_calls response) = None"
    and "run_tool_calls tools (tool_calls response) s = (Inr tool_messages, s')"
  shows "\<exists>rest. snd (snd (tool_loop llm structure tools (Suc n) messages response s)) =
           snd s' @
           BoundCall (all_tools tools structure)
             (messages @ [AIMessage response] @ tool_messages)
           # rest"
proof -
  obtain res s2 where a: "ainvoke_bound llm (all_tools tools structure)
      (messages @ [AIMessage response] @ tool_messages) s' = (res, s2)"
    by (cases "ainvoke_bound llm (all_tools tools structure)
          (messages @ [AIMessage response] @ tool_messages) s'")
  have x2: "snd s2 = snd s' @
      [BoundCall (all_tools tools structure) (messages @ [AIMessage response] @ tool_messages)]"
    using ainvoke_bound_log [of llm "all_tools tools structure"
        "messages @ [AIMessage response] @ tool_messages" s'] a
    by simp
  show ?thesis
  proof (cases res)
    case (Inl e)
    then show ?thesis using assms a x2 by simp
  next
    case (Inr response')
    obtain ext3 where "snd (snd (tool_loop llm structure tools n
            (messages @ [AIMessage response] @ tool_messages) response' s2)) = snd s2 @ ext3"
      using tool_loop_log_extends by blast
    then show ?thesis using assms a x2 Inr by simp
  qed
qed

lemma execute_tool_call_ids:
  "execute_tool_call tools tc s = (Inr ms, s') \<Longrightarrow>
     map tool_call_id_of ms = (if registered tools tc then [Some (tc_id tc)] else [])"
  by (induction tools)
     (auto simp: registered_def split: prod.splits tool_outcome.splits if_splits)

lemma run_tool_calls_ids:
  "run_tool_calls tools tcs s = (Inr tms, s') \<Longrightarrow>
     map tool_call_id_of tms = map (\<lambda>tc. Some (tc_id tc)) (filter (registered tools) tcs)"
proof (induction tcs arbitrary: s tms s')
  case Nil
  then show ?case by simp
next
  case (Cons tc tcs)
  obtain r1 s1 where e: "execute_tool_call tools tc s = (r1, s1)"
    by (cases "execute_tool_call tools tc s")
  obtain r2 s2 where r: "run_tool_calls tools tcs s1 = (r2, s2)"
    by (cases "run_tool_calls tools tcs s1")
  from Cons.prems e r obtain ms ms' where
    m: "r1 = Inr ms" "r2 = Inr ms'" "tms = ms @ ms'"
    by (cases r1; cases r2) auto
  have "map tool_call_id_of ms = (if registered tools tc then [Some (tc_id tc)] else [])"
    using execute_tool_call_ids e m(1) by blast
  moreover have "map tool_call_id_of ms' =
      map (\<lambda>tc. Some (tc_id tc)) (filter (registered tools) tcs)"
    using Cons.IH r m(2) by blast
  ultimately show ?case using m(3) by simp
qed

lemma execute_tool_call_unregistered:
  "\<not> registered tools tc \<Longrightarrow> execute_tool_call tools tc s = (Inr [], s)"
  by (induction tools) (auto simp: registered_def)

lemma run_tool_calls_append:
  "run_tool_calls tools (xs @ ys) s =
     (case run_tool_calls tools xs s of
        (Inl e, s') \<Rightarrow> (Inl e, s')
      | (Inr ms, s') \<Rightarrow>
          (case run_tool_calls tools ys s' of
             (Inl e, s'') \<Rightarrow> (Inl e, s'')
           | (Inr ms', s'') \<Rightarrow> (Inr (ms @ ms'), s'')))"
  by (induction xs arbitrary: s) (auto split: prod.splits sum.splits)

lemma run_tool_calls_skip:
  "\<not> registered tools tc \<Longrightarrow>
     run_tool_calls tools (pre @ tc # post) s = run_tool_calls tools (pre @ post) s"
  by (simp add: run_tool_calls_append execute_tool_call_unregistered
        split: prod.splits sum.splits)

lemma execute_tool_call_find:
  "execute_tool_call tools tc s =
     (case find (\<lambda>t. tool_name t = Some (tc_name tc)) tools of
        None \<Rightarrow> (Inr [], s)
      | Some t \<Rightarrow>
          (case ainvoke t (tc_args tc) (fst s) of
             (Returns r, w') \<Rightarrow>
               (Inr [ToolMessage r (tc_id tc)],
                (w', snd s @ [ToolInvoke (tc_name tc) (tc_args tc)]))
           | (Raises e, w') \<Rightarrow>
               (Inr [ToolMessage (''Error: '' @ e) (tc_id tc)],
                (w', snd s @ [ToolInvoke (tc_name tc) (tc_args tc)]))
           | (Escapes e, w') \<Rightarrow>
               (Inl (BaseException e),
                (w', snd s @ [ToolInvoke (tc_name tc) (tc_args tc)]))))"
  by (induction tools) auto

lemma all_tools_not_forced:
  "tools \<noteq> [] \<Longrightarrow> all_tools tools structure \<noteq> [BoundSchema nm]"
  by (cases tools) (auto simp: all_tools_def)

lemma no_model_call_last:
  assumes "model_calls ext = 0"
    and "tr0 @ BoundCall bs msgs # ext = tr @ [BoundCall bs' msgs']"
  shows "ext = [] \<and> tr = tr0 \<and> bs = bs' \<and> msgs = msgs'"
proof (cases ext rule: rev_cases)
  case Nil
  then show ?thesis using assms(2) by simp
next
  case (snoc ext' x)
  then have "x = BoundCall bs' msgs'" using assms(2) by simp
  then have "model_calls ext = Suc (model_calls ext')"
    using snoc by (simp add: model_calls_def)
  then show ?thesis using assms(1) by simp
qed

lemma tool_loop_forced_follows:
  assumes "tools \<noteq> []"
    and "snd s = tr0 @ [BoundCall (all_tools tools structure) messages]"
    and "snd (snd (tool_loop llm structure tools n messages response s)) =
           tr @ [BoundCall [BoundSchema (schema_name structure)] m]"
  shows "\<exists>tr'. tr = tr' @ [BoundCall (all_tools tools structure) m]"
  using assms(2,3)
proof (induction n arbitrary: messages response s tr0)
  case 0
  have "snd (snd (tool_loop llm structure tools 0 messages response s)) =
          snd s @ [BoundCall [BoundSchema (schema_name structure)] messages]"
    by (auto simp: ainvoke_bound_def split: prod.splits sum.splits)
  then have "tr = tr0 @ [BoundCall (all_tools tools structure) messages] \<and> m = messages"
    using 0 by auto
  then show ?case by blast
next
  case (Suc n)
  note nf = all_tools_not_forced [OF assms(1)]
  show ?case
  proof (cases "find_structure_tool_call (schema_name structure) (tool_calls response)")
    case (Some tc)
    then have "snd (snd (tool_loop llm structure tools (Suc n) messages response s)) = snd s"
      by (auto split: sum.splits)
    then have "tr0 @ [BoundCall (all_tools tools structure) messages] =
                 tr @ [BoundCall [BoundSchema (schema_name structure)] m]"
      using Suc.prems by simp
    then have "all_tools tools structure = [BoundSchema (schema_name structure)]"
      by simp
    then show ?thesis using nf by blast
  next
    case None
    obtain rt s1 where r: "run_tool_calls tools (tool_calls response) s = (rt, s1)"
      by (cases "run_tool_calls tools (tool_calls response) s")
    obtain ext1 where x1: "snd s1 = snd s @ ext1" "model_calls ext1 = 0"
      using run_tool_calls_log [of tools "tool_calls response" s] r by auto
    show ?thesis
    proof (cases rt)
      case (Inl err)
      then have "snd (snd (tool_loop llm structure tools (Suc n) messages response s)) = snd s1"
        using None r by simp
      then have "tr0 @ BoundCall (all_tools tools structure) messages # ext1 =
                   tr @ [BoundCall [BoundSchema (schema_name structure)] m]"
        using Suc.prems x1 by simp
      then have "all_tools tools structure = [BoundSchema (schema_name structure)]"
        using no_model_call_last [OF x1(2)] by blast
      then show ?thesis using nf by blast
    next
      case (Inr tms)
      obtain res s2 where a: "ainvoke_bound llm (all_tools tools structure)
          (messages @ [AIMessage response] @ tms) s1 = (res, s2)"
        by (cases "ainvoke_bound llm (all_tools tools structure)
              (messages @ [AIMessage response] @ tms) s1")
      have x2: "snd s2 = snd s1 @
          [BoundCall (all_tools tools structure) (messages @ [AIMessage response] @ tms)]"
        using ainvoke_bound_log [of llm "all_tools tools structure"
            "messages @ [AIMessage response] @ tms" s1] a
        by simp
      show ?thesis
      proof (cases res)
        case (Inl e)
        then have "snd (snd (tool_loop llm structure tools (Suc n) messages response s)) = snd s2"
          using None r Inr a by simp
        then have "snd s1 @ [BoundCall (all_tools tools structure)
                     (messages @ [AIMessage response] @ tms)] =
                   tr @ [BoundCall [BoundSchema (schema_name structure)] m]"
          using Suc.prems(2) x2 by simp
        then have "all_tools tools structure = [BoundSchema (schema_name structure)]"
          by simp
        then show ?thesis using nf by blast
      next
        case res: (Inr response')
        have "snd (snd (tool_loop llm structure tools n (messages @ [AIMessage response] @ tms)
                  response' s2)) = tr @ [BoundCall [BoundSchema (schema_name structure)] m]"
          using None r Inr a res Suc.prems(2) by simp
        then show ?thesis using Suc.IH [OF x2] by blast
      qed
    qed
  qed
qed

section \<open>The iterations that neither return nor raise\<close>

lemma tool_loop_after_free_iterations:
  "after_free_iterations llm structure tools n messages response s = Some (m, r, s1) \<Longrightarrow>
     tool_loop llm structure tools (n + k) messages response s =
       tool_loop llm structure tools k m r s1"
proof (induction n arbitrary: messages response s)
  case 0
  then show ?case by simp
next
  case (Suc n)
  then show ?case
    by (auto split: option.splits prod.splits sum.splits)
qed

lemma after_free_iterations_last_call:
  "ainvoke_bound llm (all_tools tools structure) messages s = (Inr response, s0) \<Longrightarrow>
     after_free_iterations llm structure tools n messages response s0 = Some (m, r, s1) \<Longrightarrow>
     \<exists>sb. ainvoke_bound llm (all_tools tools structure) m sb = (Inr r, s1)"
proof (induction n arbitrary: messages response s s0)
  case 0
  then have "ainvoke_bound llm (all_tools tools structure) m s = (Inr r, s1)"
    by simp
  then show ?case by blast
next
  case (Suc n)
  from Suc.prems(2) obtain tms s' response' s'' where
      "ainvoke_bound llm (all_tools tools structure)
         (messages @ [AIMessage response] @ tms) s' = (Inr response', s'')"
      "after_free_iterations llm structure tools n
         (messages @ [AIMessage response] @ tms) response' s'' = Some (m, r, s1)"
    by (auto split: option.splits prod.splits sum.splits)
  then show ?case using Suc.IH by blast
qed

section \<open>Runs of the example\<close>

lemmas example_defs =
  generate_structured_output_def ainvoke_bound_def ainvoke_structured_def all_tools_def
  scripted_model_def BookOutput_def returning_tool_def failing_tool_def escaping_tool_def
  turn_def reviews_tool_def broken_tool_def cancelled_tool_def start_def book_messages_def reviews_call_def
  unknown_call_def answer_call_def empty_answer_call_def invalid_answer_call_def
  valid_target_audience_def valid_reading_level_def failed_fields_def audiences_def
  model_calls_def

text \<open>
  The scenario of the spec: the first turn requests \<^verbatim>\<open>collect_book_reviews\<close>, the second
  selects the schema with valid arguments. Two model calls, one tool invocation, and the
  instance is returned.
\<close>

lemma reviews_then_answer:
  "generate_structured_output scripted_model book_messages BookOutput (Some [reviews_tool]) 10
      (start [turn [reviews_call], turn [answer_call]] []) =
   (Inr (StructuredInstance \<lparr>target_audience = ''young adult'', reading_level = 4\<rparr>),
    ([], []),
    [BoundCall [BoundTool (Some ''collect_book_reviews''), BoundSchema ''BookOutput'']
       book_messages,
     ToolInvoke ''collect_book_reviews'' (tc_args reviews_call),
     BoundCall [BoundTool (Some ''collect_book_reviews''), BoundSchema ''BookOutput'']
       (book_messages @
        [AIMessage (turn [reviews_call]), ToolMessage ''two reviews'' ''call_1''])])"
  by (simp add: example_defs eval_nat_numeral)

section \<open>The number of model calls\<close>

text \<open>
  Claim C1: for every budget of at least one and every non-empty tool list, one call of
  \<^verbatim>\<open>generate_structured_output\<close> makes at most \<open>budget\<close> calls of the chat model.

  The function makes one call before the loop, one at the end of each of the
  \<open>budget - 1\<close> iterations, and one more after the loop: \<open>budget + 1\<close> calls when no turn
  that the loop inspects selects the schema (the bound that holds for every run is
  \<open>generate_structured_output_calls_le\<close>). With \<open>max_executions = 1\<close>, where the
  docstring says the function will simply run structured output, the chat model is called
  twice, and the answer to the first call is dropped unread.
\<close>

theorem budget_one_issues_two_model_calls:
  "model_calls (snd (snd (generate_structured_output scripted_model book_messages BookOutput
      (Some [reviews_tool]) 1 (start [turn [reviews_call], turn [answer_call]] [])))) = 2"
  by (simp add: example_defs)

text \<open>
  Claim C2: with tools, the returned value is an instance of the schema, or the call fails;
  the forced completion never returns a raw model turn.

  The last call binds the schema as a tool (\<^verbatim>\<open>bind_tools([structure], tool_choice="any")\<close>)
  and the function returns what that chat model answers: the assistant message itself.
  Here its tool call carries arguments that the schema rejects, and the message is returned
  all the same.
\<close>

theorem forced_completion_returns_raw_turn:
  "fst (generate_structured_output scripted_model book_messages BookOutput
      (Some [reviews_tool]) 1 (start [turn [reviews_call], turn [invalid_answer_call]] [])) =
   Inr (RawTurn (turn [invalid_answer_call])) \<and>
   construct BookOutput (tc_args invalid_answer_call) =
     Inl (ValidationError [''target_audience'', ''reading_level''])"
  by (simp add: example_defs)

text \<open>
  Claim C3: if the model never selects the schema in the \<open>budget - 1\<close> free iterations,
  there is exactly one more call, forced to the schema alone, its result is returned, and
  the calls number \<open>budget\<close> in all.

  With a budget of two and a model that asks for reviews twice, the log shows the one
  forced call and its answer returned, and three model calls.
\<close>

theorem never_selecting_schema_issues_budget_plus_one_calls:
  "generate_structured_output scripted_model book_messages BookOutput (Some [reviews_tool]) 2
      (start [turn [reviews_call], turn [reviews_call], turn [answer_call]] []) =
   (Inr (RawTurn (turn [answer_call])),
    ([], []),
    [BoundCall [BoundTool (Some ''collect_book_reviews''), BoundSchema ''BookOutput'']
       book_messages,
     ToolInvoke ''collect_book_reviews'' (tc_args reviews_call),
     BoundCall [BoundTool (Some ''collect_book_reviews''), BoundSchema ''BookOutput'']
       (book_messages @
        [AIMessage (turn [reviews_call]), ToolMessage ''two reviews'' ''call_1'']),
     BoundCall [BoundSchema ''BookOutput'']
       (book_messages @
        [AIMessage (turn [reviews_call]), ToolMessage ''two reviews'' ''call_1''])]) \<and>
   model_calls (snd (snd (generate_structured_output scripted_model book_messages BookOutput
      (Some [reviews_tool]) 2
      (start [turn [reviews_call], turn [reviews_call], turn [answer_call]] [])))) = 3"
  by (simp add: example_defs)

section \<open>A turn that selects the schema\<close>

text \<open>
  Claim C4, as amended: if on a free iteration the first tool call of the turn that is named
  after the schema has non-empty arguments, the function ends at once with what constructing
  the schema from those arguments gives (the instance, or the schema's validation error);
  it makes no further model call and invokes no tool requested in that turn.

  The iteration is any of the \<open>budget - 1\<close> ones (\<open>Suc n\<close> iterations are left);
  the state returned is the state the iteration started in, so neither the log nor the world
  has changed.
\<close>

theorem schema_call_returns_at_once:
  assumes "find_structure_tool_call (schema_name structure) (tool_calls response) = Some tc"
    and "tc_args tc \<noteq> []"
  shows "tool_loop llm structure tools (Suc n) messages response s =
           (case construct structure (tc_args tc) of
              Inl e \<Rightarrow> Inl e
            | Inr v \<Rightarrow> Inr (StructuredInstance v),
            s)"
  using assms by (simp split: sum.splits)

text \<open>The turn also requests \<^verbatim>\<open>collect_book_reviews\<close>; the tool is not invoked.\<close>

theorem schema_call_returns_at_once_witness:
  "find_structure_tool_call (schema_name BookOutput)
      (tool_calls (turn [reviews_call, answer_call])) = Some answer_call \<and>
   tc_args answer_call \<noteq> [] \<and>
   tool_loop scripted_model BookOutput [reviews_tool] (Suc 0) book_messages
      (turn [reviews_call, answer_call]) (start [turn [reviews_call]] []) =
     (Inr (StructuredInstance \<lparr>target_audience = ''young adult'', reading_level = 4\<rparr>),
      start [turn [reviews_call]] [])"
proof -
  have f: "find_structure_tool_call (schema_name BookOutput)
      (tool_calls (turn [reviews_call, answer_call])) = Some answer_call"
    by (simp add: example_defs)
  have a: "tc_args answer_call \<noteq> []"
    by (simp add: answer_call_def)
  have c: "construct BookOutput (tc_args answer_call) =
      Inr \<lparr>target_audience = ''young adult'', reading_level = 4\<rparr>"
    by (simp add: example_defs)
  show ?thesis
    using f a c
      schema_call_returns_at_once [OF f a, of scripted_model "[reviews_tool]" 0 book_messages
        "start [turn [reviews_call]] []"]
    by simp
qed

text \<open>
  The claim as stated asks only that the turn contain a schema call with non-empty
  arguments. The loop takes the first tool call named after the schema and stops looking:
  when that one has no arguments, a later one that has them is not used.
\<close>

theorem later_schema_call_is_not_used:
  "answer_call \<in> set (tool_calls (turn [empty_answer_call, answer_call])) \<and>
   tc_name answer_call = schema_name BookOutput \<and>
   tc_args answer_call \<noteq> [] \<and>
   generate_structured_output scripted_model book_messages BookOutput (Some [reviews_tool]) 2
      (start [turn [empty_answer_call, answer_call]] []) =
   (Inl (Exception empty_args_message),
    ([], []),
    [BoundCall [BoundTool (Some ''collect_book_reviews''), BoundSchema ''BookOutput'']
       book_messages])"
  by (simp add: example_defs)

text \<open>
  Claim C8, as amended: if on a free iteration the first tool call of the turn that is named
  after the schema has empty arguments, the function raises the exception with the
  out-of-tokens message at once: there is no retry and no further model call (the state
  returned is the state the iteration started in).
\<close>

theorem empty_schema_call_is_fatal:
  assumes "find_structure_tool_call (schema_name structure) (tool_calls response) = Some tc"
    and "tc_args tc = []"
  shows "tool_loop llm structure tools (Suc n) messages response s =
           (Inl (Exception empty_args_message), s)"
  using assms by simp

text \<open>
  The turn also requests \<^verbatim>\<open>collect_book_reviews\<close>; the tool is not invoked and the
  chat model is not called again.
\<close>

theorem empty_schema_call_is_fatal_witness:
  "find_structure_tool_call (schema_name BookOutput)
      (tool_calls (turn [reviews_call, empty_answer_call])) = Some empty_answer_call \<and>
   tc_args empty_answer_call = [] \<and>
   tool_loop scripted_model BookOutput [reviews_tool] (Suc 0) book_messages
      (turn [reviews_call, empty_answer_call]) (start [turn [answer_call]] []) =
     (Inl (Exception empty_args_message), start [turn [answer_call]] [])"
proof -
  have f: "find_structure_tool_call (schema_name BookOutput)
      (tool_calls (turn [reviews_call, empty_answer_call])) = Some empty_answer_call"
    by (simp add: example_defs)
  have a: "tc_args empty_answer_call = []"
    by (simp add: empty_answer_call_def)
  show ?thesis
    using f a
      empty_schema_call_is_fatal [OF f a, of scripted_model "[reviews_tool]" 0 book_messages
        "start [turn [answer_call]] []"]
    by simp
qed

text \<open>
  The claim as stated speaks of any turn that contains a schema call with empty arguments.
  A schema call that comes after another schema call in the same turn is never looked at:
  here the first one is valid and its instance is returned.
\<close>

theorem empty_schema_call_after_valid_one_is_ignored:
  "empty_answer_call \<in> set (tool_calls (turn [answer_call, empty_answer_call])) \<and>
   tc_name empty_answer_call = schema_name BookOutput \<and>
   tc_args empty_answer_call = [] \<and>
   generate_structured_output scripted_model book_messages BookOutput (Some [reviews_tool]) 2
      (start [turn [answer_call, empty_answer_call]] []) =
   (Inr (StructuredInstance \<lparr>target_audience = ''young adult'', reading_level = 4\<rparr>),
    ([], []),
    [BoundCall [BoundTool (Some ''collect_book_reviews''), BoundSchema ''BookOutput'']
       book_messages])"
  by (simp add: example_defs)

section \<open>A turn that requests tools\<close>

text \<open>
  Claim C5, as amended: for every model turn processed without a schema call, in which no
  tool invocation ends in an exception outside class \<^verbatim>\<open>Exception\<close>, the tool messages
  appended to the conversation before it is replayed to the chat model are, in the order of
  the requests, exactly one for each tool call whose name is the name of a registered tool,
  carrying that call's id; a tool call whose name matches no registered tool gets none.

  The first conjunct reads the ids off the tool messages; the second says that the next
  event after the tools have run is the call of the chat model on the conversation extended
  by the turn and those tool messages.
\<close>

theorem registered_requests_get_one_tool_message_each:
  assumes "find_structure_tool_call (schema_name structure) (tool_calls response) = None"
    and "run_tool_calls tools (tool_calls response) s = (Inr tool_messages, s')"
  shows "map tool_call_id_of tool_messages =
           map (\<lambda>tc. Some (tc_id tc)) (filter (registered tools) (tool_calls response)) \<and>
         (\<exists>rest. snd (snd (tool_loop llm structure tools (Suc n) messages response s)) =
            snd s' @
            BoundCall (all_tools tools structure)
              (messages @ [AIMessage response] @ tool_messages)
            # rest)"
  using run_tool_calls_ids [OF assms(2)] tool_loop_replays [OF assms]
  by simp

text \<open>
  A turn with a request for a tool that is not registered and one for
  \<^verbatim>\<open>collect_book_reviews\<close>: one tool message, for the second.
\<close>

theorem registered_requests_get_one_tool_message_each_witness:
  "find_structure_tool_call (schema_name BookOutput)
      (tool_calls (turn [unknown_call, reviews_call])) = None \<and>
   run_tool_calls [reviews_tool] (tool_calls (turn [unknown_call, reviews_call]))
      (start [turn [answer_call]] []) =
     (Inr [ToolMessage ''two reviews'' ''call_1''],
      (([turn [answer_call]], []), [ToolInvoke ''collect_book_reviews'' (tc_args reviews_call)])) \<and>
   map tool_call_id_of [ToolMessage ''two reviews'' ''call_1''] = [Some ''call_1''] \<and>
   filter (registered [reviews_tool]) (tool_calls (turn [unknown_call, reviews_call])) =
     [reviews_call] \<and>
   (\<exists>rest. snd (snd (tool_loop scripted_model BookOutput [reviews_tool] (Suc 0) book_messages
        (turn [unknown_call, reviews_call]) (start [turn [answer_call]] []))) =
      ToolInvoke ''collect_book_reviews'' (tc_args reviews_call) #
      BoundCall [BoundTool (Some ''collect_book_reviews''), BoundSchema ''BookOutput'']
        (book_messages @ [AIMessage (turn [unknown_call, reviews_call]),
           ToolMessage ''two reviews'' ''call_1''])
      # rest)"
proof -
  have f: "find_structure_tool_call (schema_name BookOutput)
      (tool_calls (turn [unknown_call, reviews_call])) = None"
    by (simp add: example_defs)
  have r: "run_tool_calls [reviews_tool] (tool_calls (turn [unknown_call, reviews_call]))
      (start [turn [answer_call]] []) =
      (Inr [ToolMessage ''two reviews'' ''call_1''],
       (([turn [answer_call]], []), [ToolInvoke ''collect_book_reviews'' (tc_args reviews_call)]))"
    by (simp add: example_defs)
  have g: "filter (registered [reviews_tool]) (tool_calls (turn [unknown_call, reviews_call])) =
      [reviews_call]"
    by (simp add: example_defs registered_def)
  have b: "all_tools [reviews_tool] BookOutput =
      [BoundTool (Some ''collect_book_reviews''), BoundSchema ''BookOutput'']"
    by (simp add: example_defs)
  have i: "tc_id reviews_call = ''call_1''"
    by (simp add: reviews_call_def)
  show ?thesis
    using f r g
      registered_requests_get_one_tool_message_each [OF f r, of scripted_model 0 book_messages]
    by (simp add: b i del: tool_loop.simps run_tool_calls.simps execute_tool_call.simps
          find_structure_tool_call.simps)
qed

text \<open>
  The claim as stated gives every request a result, also one that names no registered tool.
  The inner loop has no branch for a name it does not find: the conversation replayed after
  such a turn holds the turn and no tool message.
\<close>

theorem unregistered_request_gets_no_tool_message:
  "find_structure_tool_call (schema_name BookOutput) (tool_calls (turn [unknown_call])) = None \<and>
   generate_structured_output scripted_model book_messages BookOutput (Some [reviews_tool]) 2
      (start [turn [unknown_call], turn [answer_call], turn [answer_call]] []) =
   (Inr (RawTurn (turn [answer_call])),
    ([], []),
    [BoundCall [BoundTool (Some ''collect_book_reviews''), BoundSchema ''BookOutput'']
       book_messages,
     BoundCall [BoundTool (Some ''collect_book_reviews''), BoundSchema ''BookOutput'']
       (book_messages @ [AIMessage (turn [unknown_call])]),
     BoundCall [BoundSchema ''BookOutput'']
       (book_messages @ [AIMessage (turn [unknown_call])])])"
  by (simp add: example_defs)

text \<open>
  Claim C6: in a turn with no schema call, a tool call whose name matches no registered tool
  is skipped: no tool message is produced for it, nothing is raised, and the other requests
  of the turn are processed as if it were not there, after which the loop calls the chat
  model again.

  The second and third conjuncts hold whatever the other requests end in: the turn is
  processed, and the iteration ends, as those requests alone decide. The fourth is for a
  turn whose other requests leave tool messages (no invocation ends in an exception outside
  class \<^verbatim>\<open>Exception\<close>).
\<close>

theorem unregistered_request_is_skipped:
  assumes "tool_calls response = pre @ tc # post"
    and "find_structure_tool_call (schema_name structure) (tool_calls response) = None"
    and "\<not> registered tools tc"
  shows "execute_tool_call tools tc s1 = (Inr [], s1) \<and>
         run_tool_calls tools (tool_calls response) s = run_tool_calls tools (pre @ post) s \<and>
         tool_loop llm structure tools (Suc n) messages response s =
           (case run_tool_calls tools (pre @ post) s of
              (Inl e, s') \<Rightarrow> (Inl e, s')
            | (Inr tool_messages, s') \<Rightarrow>
                (case ainvoke_bound llm (all_tools tools structure)
                        (messages @ [AIMessage response] @ tool_messages) s' of
                   (Inl e, s'') \<Rightarrow> (Inl e, s'')
                 | (Inr response', s'') \<Rightarrow>
                     tool_loop llm structure tools n
                       (messages @ [AIMessage response] @ tool_messages) response' s'')) \<and>
         (\<forall>tool_messages s'.
            run_tool_calls tools (pre @ post) s = (Inr tool_messages, s') \<longrightarrow>
            (\<exists>rest. snd (snd (tool_loop llm structure tools (Suc n) messages response s)) =
               snd s' @
               BoundCall (all_tools tools structure)
                 (messages @ [AIMessage response] @ tool_messages)
               # rest))"
proof -
  have r: "run_tool_calls tools (tool_calls response) s = run_tool_calls tools (pre @ post) s"
    using assms(1) run_tool_calls_skip [OF assms(3)] by simp
  have "\<exists>rest. snd (snd (tool_loop llm structure tools (Suc n) messages response s)) =
           snd s' @
           BoundCall (all_tools tools structure)
             (messages @ [AIMessage response] @ tool_messages)
           # rest"
    if "run_tool_calls tools (pre @ post) s = (Inr tool_messages, s')" for tool_messages s'
    using tool_loop_replays [OF assms(2), of tools s tool_messages s' llm n messages] r that
    by simp
  moreover have "tool_loop llm structure tools (Suc n) messages response s =
      (case run_tool_calls tools (pre @ post) s of
         (Inl e, s') \<Rightarrow> (Inl e, s')
       | (Inr tool_messages, s') \<Rightarrow>
           (case ainvoke_bound llm (all_tools tools structure)
                   (messages @ [AIMessage response] @ tool_messages) s' of
              (Inl e, s'') \<Rightarrow> (Inl e, s'')
            | (Inr response', s'') \<Rightarrow>
                tool_loop llm structure tools n
                  (messages @ [AIMessage response] @ tool_messages) response' s''))"
    using assms(2) r by simp
  ultimately show ?thesis
    using execute_tool_call_unregistered [OF assms(3)] r by blast
qed

text \<open>
  The unregistered request comes first; \<^verbatim>\<open>collect_book_reviews\<close>, requested after it, is
  still invoked.
\<close>

theorem unregistered_request_is_skipped_witness:
  "tool_calls (turn [unknown_call, reviews_call]) = [] @ unknown_call # [reviews_call] \<and>
   find_structure_tool_call (schema_name BookOutput)
      (tool_calls (turn [unknown_call, reviews_call])) = None \<and>
   \<not> registered [reviews_tool] unknown_call \<and>
   execute_tool_call [reviews_tool] unknown_call (start [turn [answer_call]] []) =
     (Inr [], start [turn [answer_call]] []) \<and>
   run_tool_calls [reviews_tool] (tool_calls (turn [unknown_call, reviews_call]))
      (start [turn [answer_call]] []) =
     (Inr [ToolMessage ''two reviews'' ''call_1''],
      (([turn [answer_call]], []), [ToolInvoke ''collect_book_reviews'' (tc_args reviews_call)])) \<and>
   (\<exists>rest. snd (snd (tool_loop scripted_model BookOutput [reviews_tool] (Suc 0) book_messages
        (turn [unknown_call, reviews_call]) (start [turn [answer_call]] []))) =
      ToolInvoke ''collect_book_reviews'' (tc_args reviews_call) #
      BoundCall [BoundTool (Some ''collect_book_reviews''), BoundSchema ''BookOutput'']
        (book_messages @ [AIMessage (turn [unknown_call, reviews_call]),
           ToolMessage ''two reviews'' ''call_1''])
      # rest)"
proof -
  have p: "tool_calls (turn [unknown_call, reviews_call]) = [] @ unknown_call # [reviews_call]"
    by (simp add: turn_def)
  have f: "find_structure_tool_call (schema_name BookOutput)
      (tool_calls (turn [unknown_call, reviews_call])) = None"
    by (simp add: example_defs)
  have u: "\<not> registered [reviews_tool] unknown_call"
    by (simp add: example_defs registered_def)
  have r: "run_tool_calls [reviews_tool] ([] @ [reviews_call]) (start [turn [answer_call]] []) =
      (Inr [ToolMessage ''two reviews'' ''call_1''],
       (([turn [answer_call]], []), [ToolInvoke ''collect_book_reviews'' (tc_args reviews_call)]))"
    by (simp add: example_defs)
  have b: "all_tools [reviews_tool] BookOutput =
      [BoundTool (Some ''collect_book_reviews''), BoundSchema ''BookOutput'']"
    by (simp add: example_defs)
  note th = unregistered_request_is_skipped [OF p f u, of "start [turn [answer_call]] []"
      "start [turn [answer_call]] []" scripted_model 0 book_messages]
  have e: "execute_tool_call [reviews_tool] unknown_call (start [turn [answer_call]] []) =
      (Inr [], start [turn [answer_call]] [])"
    using th by blast
  have "run_tool_calls [reviews_tool] (tool_calls (turn [unknown_call, reviews_call]))
      (start [turn [answer_call]] []) =
      run_tool_calls [reviews_tool] ([] @ [reviews_call]) (start [turn [answer_call]] [])"
    using th by blast
  then have r': "run_tool_calls [reviews_tool] (tool_calls (turn [unknown_call, reviews_call]))
      (start [turn [answer_call]] []) =
      (Inr [ToolMessage ''two reviews'' ''call_1''],
       (([turn [answer_call]], []), [ToolInvoke ''collect_book_reviews'' (tc_args reviews_call)]))"
    using r by (simp only:)
  have "\<exists>rest. snd (snd (tool_loop scripted_model BookOutput [reviews_tool] (Suc 0) book_messages
        (turn [unknown_call, reviews_call]) (start [turn [answer_call]] []))) =
      snd (([turn [answer_call]], []::book_output list),
           [ToolInvoke ''collect_book_reviews'' (tc_args reviews_call)]) @
      BoundCall (all_tools [reviews_tool] BookOutput)
        (book_messages @ [AIMessage (turn [unknown_call, reviews_call])] @
           [ToolMessage ''two reviews'' ''call_1''])
      # rest"
    using th r by blast
  then have l: "\<exists>rest. snd (snd (tool_loop scripted_model BookOutput [reviews_tool] (Suc 0)
        book_messages (turn [unknown_call, reviews_call]) (start [turn [answer_call]] []))) =
      ToolInvoke ''collect_book_reviews'' (tc_args reviews_call) #
      BoundCall [BoundTool (Some ''collect_book_reviews''), BoundSchema ''BookOutput'']
        (book_messages @ [AIMessage (turn [unknown_call, reviews_call]),
           ToolMessage ''two reviews'' ''call_1''])
      # rest"
    by (simp add: b del: tool_loop.simps)
  show ?thesis
    using p f u e r' l by blast
qed

text \<open>
  Claim C7, as amended: if the invocation of a registered tool raises an exception of
  class \<^verbatim>\<open>Exception\<close>, the function does not raise on its account and the exception
  does not reach the caller: a tool message whose content is \<^verbatim>\<open>"Error: "\<close> followed by
  the text of the exception, with the id of the request, is appended to the conversation,
  the remaining requests are processed and the chat model is called again on that
  conversation; what the function returns is what that call and the rest of the loop give.

  \<open>t\<close> is the tool the inner loop finds for the request; the requests before it have left
  the tool messages \<open>ms1\<close> and the state \<open>s1\<close>, the requests after it leave \<open>ms2\<close> and
  \<open>s2\<close>.
\<close>

theorem tool_exception_is_fed_back:
  assumes "tool_calls response = pre @ tc # post"
    and "find_structure_tool_call (schema_name structure) (tool_calls response) = None"
    and "find (\<lambda>t. tool_name t = Some (tc_name tc)) tools = Some t"
    and "run_tool_calls tools pre s = (Inr ms1, s1)"
    and "ainvoke t (tc_args tc) (fst s1) = (Raises e, w')"
    and "run_tool_calls tools post (w', snd s1 @ [ToolInvoke (tc_name tc) (tc_args tc)]) =
           (Inr ms2, s2)"
  shows "run_tool_calls tools (tool_calls response) s =
           (Inr (ms1 @ ToolMessage (''Error: '' @ e) (tc_id tc) # ms2), s2) \<and>
         tool_loop llm structure tools (Suc n) messages response s =
           (case ainvoke_bound llm (all_tools tools structure)
                   (messages @ [AIMessage response] @
                    ms1 @ ToolMessage (''Error: '' @ e) (tc_id tc) # ms2) s2 of
              (Inl e', s'') \<Rightarrow> (Inl e', s'')
            | (Inr response', s'') \<Rightarrow>
                tool_loop llm structure tools n
                  (messages @ [AIMessage response] @
                   ms1 @ ToolMessage (''Error: '' @ e) (tc_id tc) # ms2) response' s'') \<and>
         (\<exists>rest. snd (snd (tool_loop llm structure tools (Suc n) messages response s)) =
            snd s2 @
            BoundCall (all_tools tools structure)
              (messages @ [AIMessage response] @
               ms1 @ ToolMessage (''Error: '' @ e) (tc_id tc) # ms2)
            # rest)"
proof -
  have x: "execute_tool_call tools tc s1 =
      (Inr [ToolMessage (''Error: '' @ e) (tc_id tc)],
       (w', snd s1 @ [ToolInvoke (tc_name tc) (tc_args tc)]))"
    using assms(3,5) by (simp add: execute_tool_call_find)
  have r: "run_tool_calls tools (tool_calls response) s =
      (Inr (ms1 @ ToolMessage (''Error: '' @ e) (tc_id tc) # ms2), s2)"
    using assms(1,4,6) x by (simp add: run_tool_calls_append)
  show ?thesis
    using r tool_loop_continues [OF assms(2) r] tool_loop_replays [OF assms(2) r]
    by simp
qed

text \<open>A \<^verbatim>\<open>collect_book_reviews\<close> that always raises an \<^verbatim>\<open>Exception\<close>.\<close>

theorem tool_exception_is_fed_back_witness:
  "tool_calls (turn [reviews_call]) = [] @ reviews_call # [] \<and>
   find_structure_tool_call (schema_name BookOutput) (tool_calls (turn [reviews_call])) = None \<and>
   find (\<lambda>t. tool_name t = Some (tc_name reviews_call)) [broken_tool] = Some broken_tool \<and>
   run_tool_calls [broken_tool] [] (start [turn [answer_call]] []) =
     (Inr [], start [turn [answer_call]] []) \<and>
   ainvoke broken_tool (tc_args reviews_call) (fst (start [turn [answer_call]] [])) =
     (Raises ''connection refused'', ([turn [answer_call]], [])) \<and>
   run_tool_calls [broken_tool] (tool_calls (turn [reviews_call]))
      (start [turn [answer_call]] []) =
     (Inr [ToolMessage ''Error: connection refused'' ''call_1''],
      (([turn [answer_call]], []), [ToolInvoke ''collect_book_reviews'' (tc_args reviews_call)])) \<and>
   tool_loop scripted_model BookOutput [broken_tool] (Suc (Suc 0)) book_messages
      (turn [reviews_call]) (start [turn [answer_call]] []) =
     (Inr (StructuredInstance \<lparr>target_audience = ''young adult'', reading_level = 4\<rparr>),
      (([], []),
       [ToolInvoke ''collect_book_reviews'' (tc_args reviews_call),
        BoundCall [BoundTool (Some ''collect_book_reviews''), BoundSchema ''BookOutput'']
          (book_messages @ [AIMessage (turn [reviews_call]),
             ToolMessage ''Error: connection refused'' ''call_1''])]))"
proof -
  have p: "tool_calls (turn [reviews_call]) = [] @ reviews_call # []"
    by (simp add: turn_def)
  have f: "find_structure_tool_call (schema_name BookOutput) (tool_calls (turn [reviews_call])) = None"
    by (simp add: example_defs)
  have t: "find (\<lambda>t. tool_name t = Some (tc_name reviews_call)) [broken_tool] = Some broken_tool"
    by (simp add: example_defs)
  have r1: "run_tool_calls [broken_tool] [] (start [turn [answer_call]] []) =
     (Inr [], start [turn [answer_call]] [])"
    by simp
  have a: "ainvoke broken_tool (tc_args reviews_call) (fst (start [turn [answer_call]] [])) =
     (Raises ''connection refused'', ([turn [answer_call]], []))"
    by (simp add: example_defs)
  have r2: "run_tool_calls [broken_tool] []
      (([turn [answer_call]], []),
       snd (start [turn [answer_call]] []) @
       [ToolInvoke (tc_name reviews_call) (tc_args reviews_call)]) =
     (Inr [], (([turn [answer_call]], []),
       [ToolInvoke ''collect_book_reviews'' (tc_args reviews_call)]))"
    by (simp add: start_def reviews_call_def)
  have i: "tc_id reviews_call = ''call_1''"
    by (simp add: reviews_call_def)
  note th = tool_exception_is_fed_back [OF p f t r1 a r2, of scripted_model "Suc 0" book_messages]
  have e1: "run_tool_calls [broken_tool] (tool_calls (turn [reviews_call]))
      (start [turn [answer_call]] []) =
     (Inr [ToolMessage ''Error: connection refused'' ''call_1''],
      (([turn [answer_call]], []), [ToolInvoke ''collect_book_reviews'' (tc_args reviews_call)]))"
    using th
    by (simp add: i del: tool_loop.simps run_tool_calls.simps execute_tool_call.simps
          find_structure_tool_call.simps find.simps)
  have e2: "tool_loop scripted_model BookOutput [broken_tool] (Suc (Suc 0)) book_messages
      (turn [reviews_call]) (start [turn [answer_call]] []) =
     (Inr (StructuredInstance \<lparr>target_audience = ''young adult'', reading_level = 4\<rparr>),
      (([], []),
       [ToolInvoke ''collect_book_reviews'' (tc_args reviews_call),
        BoundCall [BoundTool (Some ''collect_book_reviews''), BoundSchema ''BookOutput'']
          (book_messages @ [AIMessage (turn [reviews_call]),
             ToolMessage ''Error: connection refused'' ''call_1''])]))"
    using th by (simp add: example_defs)
  show ?thesis
    using p f t r1 a e1 e2 by blast
qed

text \<open>
  The claim as stated speaks of any exception. The \<^verbatim>\<open>except\<close> clause names class
  \<^verbatim>\<open>Exception\<close>; a tool whose invocation is cancelled raises
  \<^verbatim>\<open>asyncio.CancelledError\<close>, which is outside it, and the exception reaches the caller
  with no tool message written and no further call of the chat model.
\<close>

theorem cancelled_tool_exception_reaches_caller:
  "find (\<lambda>t. tool_name t = Some (tc_name reviews_call)) [cancelled_tool] = Some cancelled_tool \<and>
   ainvoke cancelled_tool (tc_args reviews_call) ([turn [answer_call]], []) =
     (Escapes ''CancelledError'', ([turn [answer_call]], [])) \<and>
   generate_structured_output scripted_model book_messages BookOutput (Some [cancelled_tool]) 3
      (start [turn [reviews_call], turn [answer_call]] []) =
   (Inl (BaseException ''CancelledError''),
    ([turn [answer_call]], []),
    [BoundCall [BoundTool (Some ''collect_book_reviews''), BoundSchema ''BookOutput'']
       book_messages,
     ToolInvoke ''collect_book_reviews'' (tc_args reviews_call)])"
  by (simp add: example_defs eval_nat_numeral)

section \<open>No tools\<close>

text \<open>
  Claim C9: for every budget of at least one, when \<^verbatim>\<open>tools\<close> is omitted or empty the
  function makes exactly one call of the chat model, in structured mode, and returns its
  result unchanged (an exception of that call reaches the caller); the budget plays no part.

  The log gains the one structured call and the right-hand side does not mention
  \<open>max_executions\<close>.
\<close>

theorem no_tools_single_structured_call:
  assumes "1 \<le> max_executions"
    and "tools = None \<or> tools = Some []"
  shows "generate_structured_output llm messages structure tools max_executions s =
           (case with_structured_output llm (schema_name structure) messages (fst s) of
              (Inl e, w') \<Rightarrow>
                (Inl e, (w', snd s @ [StructuredCall (schema_name structure) messages]))
            | (Inr result, w') \<Rightarrow>
                (Inr (StructuredInstance result),
                 (w', snd s @ [StructuredCall (schema_name structure) messages])))"
  using assms
  by (auto simp: generate_structured_output_def ainvoke_structured_def
        split: prod.splits sum.splits)

theorem no_tools_single_structured_call_witness:
  "(1::int) \<le> 5 \<and>
   ((Some [] :: book_output script tool list option) = None \<or>
    (Some [] :: book_output script tool list option) = Some []) \<and>
   generate_structured_output scripted_model book_messages BookOutput (Some []) 5
      (start [] [\<lparr>target_audience = ''adult'', reading_level = 3\<rparr>]) =
     (Inr (StructuredInstance \<lparr>target_audience = ''adult'', reading_level = 3\<rparr>),
      ([], []), [StructuredCall ''BookOutput'' book_messages])"
proof -
  have b: "(1::int) \<le> 5" by simp
  have n: "(Some [] :: book_output script tool list option) = None \<or>
    (Some [] :: book_output script tool list option) = Some []" by simp
  show ?thesis
    using b n
      no_tools_single_structured_call [OF b n, of scripted_model book_messages BookOutput
        "start [] [\<lparr>target_audience = ''adult'', reading_level = 3\<rparr>]"]
    by (simp add: scripted_model_def start_def BookOutput_def)
qed

section \<open>Forced completion\<close>

text \<open>
  Claim C10: when the function ends in the forced call, the conversation that call receives
  is the one the last call with all tools received: the answer to that last call was
  produced, but it is not inspected and is not appended to the conversation.

  First conjunct: whenever the log ends in the forced call, that call comes directly after a
  call with all tools on the same messages, with no tool invocation in between. Second
  conjunct: whenever the \<open>max_executions - 1\<close> iterations pass without a return or a raise
  and leave the conversation \<open>m\<close>, the pending response \<open>r\<close> and the state \<open>s1\<close>, then
  \<open>r\<close> is the answer to a call with all tools on \<open>m\<close>, the last one in the log, and the
  function returns what the forced call on \<open>m\<close> in \<open>s1\<close> gives, whatever \<open>r\<close> is: no
  condition is put on \<open>r\<close>, and it occurs neither in the messages of the forced call nor
  in the result.
\<close>

theorem forced_call_reuses_last_conversation:
  assumes "1 \<le> max_executions"
  shows "(\<forall>tr m.
            snd (snd (generate_structured_output llm messages structure (Some (t # ts))
              max_executions s)) =
              tr @ [BoundCall [BoundSchema (schema_name structure)] m] \<longrightarrow>
            (\<exists>tr'. tr = tr' @ [BoundCall (all_tools (t # ts) structure) m])) \<and>
         (\<forall>r0 s0 m r s1.
            ainvoke_bound llm (all_tools (t # ts) structure) messages s = (Inr r0, s0) \<longrightarrow>
            after_free_iterations llm structure (t # ts) (nat (max_executions - 1))
              messages r0 s0 = Some (m, r, s1) \<longrightarrow>
            generate_structured_output llm messages structure (Some (t # ts))
              max_executions s =
              (case ainvoke_bound llm [BoundSchema (schema_name structure)] m s1 of
                 (Inl e, s') \<Rightarrow> (Inl e, s')
               | (Inr forced, s') \<Rightarrow> (Inr (RawTurn forced), s')) \<and>
            (\<exists>sb. ainvoke_bound llm (all_tools (t # ts) structure) m sb = (Inr r, s1) \<and>
               snd (snd (generate_structured_output llm messages structure (Some (t # ts))
                 max_executions s)) =
                 snd sb @
                 [BoundCall (all_tools (t # ts) structure) m,
                  BoundCall [BoundSchema (schema_name structure)] m]))"
proof (intro conjI allI impI)
  fix tr m
  assume l: "snd (snd (generate_structured_output llm messages structure (Some (t # ts))
      max_executions s)) = tr @ [BoundCall [BoundSchema (schema_name structure)] m]"
  obtain res s0 where a: "ainvoke_bound llm (all_tools (t # ts) structure) messages s = (res, s0)"
    by (cases "ainvoke_bound llm (all_tools (t # ts) structure) messages s")
  have x: "snd s0 = snd s @ [BoundCall (all_tools (t # ts) structure) messages]"
    using ainvoke_bound_log [of llm "all_tools (t # ts) structure" messages s] a by simp
  have nf: "all_tools (t # ts) structure \<noteq> [BoundSchema (schema_name structure)]"
    by (rule all_tools_not_forced) simp
  show "\<exists>tr'. tr = tr' @ [BoundCall (all_tools (t # ts) structure) m]"
  proof (cases res)
    case (Inl e)
    then have "snd s0 = tr @ [BoundCall [BoundSchema (schema_name structure)] m]"
      using assms l a by (simp add: generate_structured_output_def)
    then have "all_tools (t # ts) structure = [BoundSchema (schema_name structure)]"
      using x by simp
    then show ?thesis using nf by blast
  next
    case (Inr r0)
    then have "snd (snd (tool_loop llm structure (t # ts) (nat (max_executions - 1)) messages
        r0 s0)) = tr @ [BoundCall [BoundSchema (schema_name structure)] m]"
      using assms l a by (simp add: generate_structured_output_def)
    then show ?thesis
      using tool_loop_forced_follows [OF _ x] by blast
  qed
next
  fix r0 s0 m r s1
  assume a: "ainvoke_bound llm (all_tools (t # ts) structure) messages s = (Inr r0, s0)"
    and f: "after_free_iterations llm structure (t # ts) (nat (max_executions - 1))
      messages r0 s0 = Some (m, r, s1)"
  have g: "generate_structured_output llm messages structure (Some (t # ts)) max_executions s =
      tool_loop llm structure (t # ts) (nat (max_executions - 1)) messages r0 s0"
    using assms a by (simp add: generate_structured_output_def)
  have "tool_loop llm structure (t # ts) (nat (max_executions - 1) + 0) messages r0 s0 =
      tool_loop llm structure (t # ts) 0 m r s1"
    by (rule tool_loop_after_free_iterations [OF f])
  then have o: "generate_structured_output llm messages structure (Some (t # ts))
      max_executions s =
      (case ainvoke_bound llm [BoundSchema (schema_name structure)] m s1 of
         (Inl e, s') \<Rightarrow> (Inl e, s')
       | (Inr forced, s') \<Rightarrow> (Inr (RawTurn forced), s'))"
    using g by simp
  then show "generate_structured_output llm messages structure (Some (t # ts))
      max_executions s =
      (case ainvoke_bound llm [BoundSchema (schema_name structure)] m s1 of
         (Inl e, s') \<Rightarrow> (Inl e, s')
       | (Inr forced, s') \<Rightarrow> (Inr (RawTurn forced), s'))" .
  obtain sb where sb: "ainvoke_bound llm (all_tools (t # ts) structure) m sb = (Inr r, s1)"
    using after_free_iterations_last_call [OF a f] by blast
  have l1: "snd s1 = snd sb @ [BoundCall (all_tools (t # ts) structure) m]"
    using ainvoke_bound_log [of llm "all_tools (t # ts) structure" m sb] sb by simp
  have "snd (snd (generate_structured_output llm messages structure (Some (t # ts))
      max_executions s)) = snd s1 @ [BoundCall [BoundSchema (schema_name structure)] m]"
    unfolding o
    using ainvoke_bound_log [of llm "[BoundSchema (schema_name structure)]" m s1]
    by (auto split: prod.splits sum.splits)
  then have "snd (snd (generate_structured_output llm messages structure (Some (t # ts))
      max_executions s)) =
      snd sb @
      [BoundCall (all_tools (t # ts) structure) m,
       BoundCall [BoundSchema (schema_name structure)] m]"
    using l1 by simp
  then show "\<exists>sb. ainvoke_bound llm (all_tools (t # ts) structure) m sb = (Inr r, s1) \<and>
      snd (snd (generate_structured_output llm messages structure (Some (t # ts))
        max_executions s)) =
        snd sb @
        [BoundCall (all_tools (t # ts) structure) m,
         BoundCall [BoundSchema (schema_name structure)] m]"
    using sb by blast
qed

text \<open>
  With a budget of two the second answer selects the schema with valid arguments; it is
  left pending when the iterations are used up, and the function returns the answer to the
  forced call, made on the conversation of the second call.
\<close>

theorem forced_call_reuses_last_conversation_witness:
  "(1::int) \<le> 2 \<and>
   ainvoke_bound scripted_model (all_tools [reviews_tool] BookOutput) book_messages
      (start [turn [reviews_call], turn [answer_call], turn [invalid_answer_call]] []) =
     (Inr (turn [reviews_call]),
      (([turn [answer_call], turn [invalid_answer_call]], []),
       [BoundCall (all_tools [reviews_tool] BookOutput) book_messages])) \<and>
   after_free_iterations scripted_model BookOutput [reviews_tool] (nat (2 - 1)) book_messages
      (turn [reviews_call])
      (([turn [answer_call], turn [invalid_answer_call]], []),
       [BoundCall (all_tools [reviews_tool] BookOutput) book_messages]) =
     Some (book_messages @
             [AIMessage (turn [reviews_call]), ToolMessage ''two reviews'' ''call_1''],
           turn [answer_call],
           (([turn [invalid_answer_call]], []),
            [BoundCall (all_tools [reviews_tool] BookOutput) book_messages,
             ToolInvoke ''collect_book_reviews'' (tc_args reviews_call),
             BoundCall (all_tools [reviews_tool] BookOutput)
               (book_messages @
                [AIMessage (turn [reviews_call]), ToolMessage ''two reviews'' ''call_1''])])) \<and>
   generate_structured_output scripted_model book_messages BookOutput (Some [reviews_tool]) 2
      (start [turn [reviews_call], turn [answer_call], turn [invalid_answer_call]] []) =
     (Inr (RawTurn (turn [invalid_answer_call])),
      (([], []),
       [BoundCall (all_tools [reviews_tool] BookOutput) book_messages,
        ToolInvoke ''collect_book_reviews'' (tc_args reviews_call),
        BoundCall (all_tools [reviews_tool] BookOutput)
          (book_messages @
           [AIMessage (turn [reviews_call]), ToolMessage ''two reviews'' ''call_1''])] @
       [BoundCall [BoundSchema (schema_name BookOutput)]
          (book_messages @
           [AIMessage (turn [reviews_call]), ToolMessage ''two reviews'' ''call_1''])])) \<and>
   (\<exists>tr'. [BoundCall (all_tools [reviews_tool] BookOutput) book_messages,
      ToolInvoke ''collect_book_reviews'' (tc_args reviews_call),
      BoundCall (all_tools [reviews_tool] BookOutput)
        (book_messages @
         [AIMessage (turn [reviews_call]), ToolMessage ''two reviews'' ''call_1''])] =
      tr' @ [BoundCall (all_tools [reviews_tool] BookOutput)
        (book_messages @
         [AIMessage (turn [reviews_call]), ToolMessage ''two reviews'' ''call_1''])])"
proof -
  have b: "(1::int) \<le> 2" by simp
  have a: "ainvoke_bound scripted_model (all_tools [reviews_tool] BookOutput) book_messages
      (start [turn [reviews_call], turn [answer_call], turn [invalid_answer_call]] []) =
     (Inr (turn [reviews_call]),
      (([turn [answer_call], turn [invalid_answer_call]], []),
       [BoundCall (all_tools [reviews_tool] BookOutput) book_messages]))"
    by (simp add: ainvoke_bound_def scripted_model_def start_def)
  have f: "after_free_iterations scripted_model BookOutput [reviews_tool] (nat (2 - 1))
      book_messages (turn [reviews_call])
      (([turn [answer_call], turn [invalid_answer_call]], []),
       [BoundCall (all_tools [reviews_tool] BookOutput) book_messages]) =
     Some (book_messages @
             [AIMessage (turn [reviews_call]), ToolMessage ''two reviews'' ''call_1''],
           turn [answer_call],
           (([turn [invalid_answer_call]], []),
            [BoundCall (all_tools [reviews_tool] BookOutput) book_messages,
             ToolInvoke ''collect_book_reviews'' (tc_args reviews_call),
             BoundCall (all_tools [reviews_tool] BookOutput)
               (book_messages @
                [AIMessage (turn [reviews_call]), ToolMessage ''two reviews'' ''call_1''])]))"
    by (simp add: example_defs)
  note th = forced_call_reuses_last_conversation [OF b, of scripted_model book_messages
      BookOutput reviews_tool "[]"
      "start [turn [reviews_call], turn [answer_call], turn [invalid_answer_call]] []"]
  have g: "generate_structured_output scripted_model book_messages BookOutput
      (Some [reviews_tool]) 2
      (start [turn [reviews_call], turn [answer_call], turn [invalid_answer_call]] []) =
     (Inr (RawTurn (turn [invalid_answer_call])),
      (([], []),
       [BoundCall (all_tools [reviews_tool] BookOutput) book_messages,
        ToolInvoke ''collect_book_reviews'' (tc_args reviews_call),
        BoundCall (all_tools [reviews_tool] BookOutput)
          (book_messages @
           [AIMessage (turn [reviews_call]), ToolMessage ''two reviews'' ''call_1''])] @
       [BoundCall [BoundSchema (schema_name BookOutput)]
          (book_messages @
           [AIMessage (turn [reviews_call]), ToolMessage ''two reviews'' ''call_1''])]))"
  proof -
    have "generate_structured_output scripted_model book_messages BookOutput
        (Some [reviews_tool]) 2
        (start [turn [reviews_call], turn [answer_call], turn [invalid_answer_call]] []) =
       (case ainvoke_bound scripted_model [BoundSchema (schema_name BookOutput)]
               (book_messages @
                [AIMessage (turn [reviews_call]), ToolMessage ''two reviews'' ''call_1''])
               (([turn [invalid_answer_call]], []),
                [BoundCall (all_tools [reviews_tool] BookOutput) book_messages,
                 ToolInvoke ''collect_book_reviews'' (tc_args reviews_call),
                 BoundCall (all_tools [reviews_tool] BookOutput)
                   (book_messages @
                    [AIMessage (turn [reviews_call]),
                     ToolMessage ''two reviews'' ''call_1''])]) of
          (Inl e, s') \<Rightarrow> (Inl e, s')
        | (Inr forced, s') \<Rightarrow> (Inr (RawTurn forced), s'))"
      using th a f by blast
    then show ?thesis
      by (simp add: ainvoke_bound_def scripted_model_def)
  qed
  have "snd (snd (generate_structured_output scripted_model book_messages BookOutput
      (Some [reviews_tool]) 2
      (start [turn [reviews_call], turn [answer_call], turn [invalid_answer_call]] []))) =
     [BoundCall (all_tools [reviews_tool] BookOutput) book_messages,
      ToolInvoke ''collect_book_reviews'' (tc_args reviews_call),
      BoundCall (all_tools [reviews_tool] BookOutput)
        (book_messages @
         [AIMessage (turn [reviews_call]), ToolMessage ''two reviews'' ''call_1''])] @
     [BoundCall [BoundSchema (schema_name BookOutput)]
        (book_messages @
         [AIMessage (turn [reviews_call]), ToolMessage ''two reviews'' ''call_1''])]"
    unfolding g by simp
  then have l: "\<exists>tr'. [BoundCall (all_tools [reviews_tool] BookOutput) book_messages,
      ToolInvoke ''collect_book_reviews'' (tc_args reviews_call),
      BoundCall (all_tools [reviews_tool] BookOutput)
        (book_messages @
         [AIMessage (turn [reviews_call]), ToolMessage ''two reviews'' ''call_1''])] =
      tr' @ [BoundCall (all_tools [reviews_tool] BookOutput)
        (book_messages @
         [AIMessage (turn [reviews_call]), ToolMessage ''two reviews'' ''call_1''])]"
    using th by blast
  show ?thesis
    using b a f g l by blast
qed

end
